theory Spec2Isabelle
  imports Main "HOL-Library.Word" "HOL-Library.Signed_Division"
begin

unbundle bit_operations_syntax

section \<open>Byte-order utilities of awk_util.h\<close>

text \<open>
  The header \<^verbatim>\<open>awk_util.h\<close> holds six byte-swap primitives, the test \<^verbatim>\<open>isNative\<close>
  and eight overloads of \<^verbatim>\<open>makeNative\<close>. Fixed-width C++ integers are words; a signed
  and an unsigned integer of one width share the word type, and signedness shows in the
  operations the code applies to them: integer promotion (\<open>scast\<close> sign-extends,
  \<open>ucast\<close> zero-extends) and right shift (\<open>signed_drop_bit\<close> on a signed operand,
  \<open>drop_bit\<close> on an unsigned one). Left shift on a signed operand keeps the low bits
  (two's complement, as C++20 defines it and as every compiler of the earlier standards
  behaves); conversion to a narrower type truncates.
\<close>

type_synonym byte = "8 word"
type_synonym uint16_t = "16 word"
type_synonym int16_t = "16 word"
type_synonym uint32_t = "32 word"
type_synonym int32_t = "32 word"
type_synonym uint64_t = "64 word"
type_synonym int64_t = "64 word"

subsection \<open>Swap primitives\<close>

text \<open>
  \<^verbatim>\<open>return (val << 8) | (val >> 8);\<close> The operand is promoted to a 32-bit \<^verbatim>\<open>int\<close>
  before the shifts, and the result is converted back to 16 bits.
\<close>

definition swap_uint16 :: "uint16_t \<Rightarrow> uint16_t" where
  "swap_uint16 val =
     (let v = (ucast val :: 32 word)
      in ucast (push_bit 8 v OR signed_drop_bit 8 v))"

text \<open>\<^verbatim>\<open>return (val << 8) | ((val >> 8) & 0xFF);\<close> with a sign-extending promotion.\<close>

definition swap_int16 :: "int16_t \<Rightarrow> int16_t" where
  "swap_int16 val =
     (let v = (scast val :: 32 word)
      in ucast (push_bit 8 v OR (signed_drop_bit 8 v AND 0xFF)))"

definition swap_uint32 :: "uint32_t \<Rightarrow> uint32_t" where
  "swap_uint32 val0 =
     (let val = (push_bit 8 val0 AND 0xFF00FF00) OR (drop_bit 8 val0 AND 0xFF00FF)
      in push_bit 16 val OR drop_bit 16 val)"

definition swap_int32 :: "int32_t \<Rightarrow> int32_t" where
  "swap_int32 val0 =
     (let val = (push_bit 8 val0 AND 0xFF00FF00) OR (signed_drop_bit 8 val0 AND 0xFF00FF)
      in push_bit 16 val OR (signed_drop_bit 16 val AND 0xFFFF))"

definition swap_uint64 :: "uint64_t \<Rightarrow> uint64_t" where
  "swap_uint64 val0 =
     (let val1 = (push_bit 8 val0 AND 0xFF00FF00FF00FF00)
                   OR (drop_bit 8 val0 AND 0x00FF00FF00FF00FF);
          val2 = (push_bit 16 val1 AND 0xFFFF0000FFFF0000)
                   OR (drop_bit 16 val1 AND 0x0000FFFF0000FFFF)
      in push_bit 32 val2 OR drop_bit 32 val2)"

definition swap_int64 :: "int64_t \<Rightarrow> int64_t" where
  "swap_int64 val0 =
     (let val1 = (push_bit 8 val0 AND 0xFF00FF00FF00FF00)
                   OR (signed_drop_bit 8 val0 AND 0x00FF00FF00FF00FF);
          val2 = (push_bit 16 val1 AND 0xFFFF0000FFFF0000)
                   OR (signed_drop_bit 16 val1 AND 0x0000FFFF0000FFFF)
      in push_bit 32 val2 OR (signed_drop_bit 32 val2 AND 0xFFFFFFFF))"

subsection \<open>Object representation\<close>

text \<open>
  The bytes of a value: \<open>byte_at i w\<close> is the byte of weight \<open>256 ^ i\<close>, and
  \<open>le_bytes k w\<close> lists the \<open>k\<close> lowest bytes, least significant first. A host stores
  a \<open>W\<close>-bit object as its \<open>W / 8\<close> bytes in that order (little-endian) or in the
  reverse order (big-endian).
\<close>

datatype endian = LittleEndian | BigEndian

definition byte_at :: "nat \<Rightarrow> 'a::len word \<Rightarrow> byte" where
  "byte_at i w = ucast (drop_bit (8 * i) w)"

definition le_bytes :: "nat \<Rightarrow> 'a::len word \<Rightarrow> byte list" where
  "le_bytes k w = map (\<lambda>i. byte_at i w) [0..<k]"

definition of_le_bytes :: "byte list \<Rightarrow> 'a::len word" where
  "of_le_bytes bs = foldr (\<lambda>b w. ucast b OR push_bit 8 w) bs 0"

definition object_bytes :: "endian \<Rightarrow> 'a::len word \<Rightarrow> byte list" where
  "object_bytes host w =
     (case host of
        LittleEndian \<Rightarrow> le_bytes (LENGTH('a) div 8) w
      | BigEndian \<Rightarrow> rev (le_bytes (LENGTH('a) div 8) w))"

definition object_value :: "endian \<Rightarrow> byte list \<Rightarrow> 'a::len word" where
  "object_value host bs =
     (case host of
        LittleEndian \<Rightarrow> of_le_bytes bs
      | BigEndian \<Rightarrow> of_le_bytes (rev bs))"

subsection \<open>Buffers and memory\<close>

text \<open>
  \<^verbatim>\<open>input.request()\<close> yields a \<^verbatim>\<open>py::buffer_info\<close>: the descriptor of the array.
  Sizes and strides are \<^verbatim>\<open>ssize_t\<close>, here integers; \<open>ptr\<close> is the address of the first
  element. The record field for \<^verbatim>\<open>size\<close>, the number of elements, is \<open>size_info\<close>.
  The format string carries the declared byte order in its first character.

  The state a call works on is the array's descriptor together with the memory block
  the array's data lies in, a list of bytes whose index is the address. That block may
  be larger than the region the descriptor covers, as for a slice of a larger array.
\<close>

record buffer_info =
  ptr :: int
  itemsize :: int
  size_info :: int
  format :: string
  ndim :: int
  shape :: "int list"
  strides :: "int list"

record world =
  request :: buffer_info
  mem :: "byte list"

text \<open>
  What can go wrong: \<^verbatim>\<open>format.at(0)\<close> throws \<^verbatim>\<open>std::out_of_range\<close> on an empty
  string; an access outside the memory block, \<^verbatim>\<open>shape[0]\<close> on an empty vector and a
  division by zero have undefined behaviour, which the model reports as \<open>Undefined\<close>
  in place of a result.
\<close>

datatype error = OutOfRange | Undefined

text \<open>
  Reading and writing through a typed pointer: an element of type \<open>'a word\<close> at
  address \<open>a\<close> occupies the \<open>LENGTH('a) div 8\<close> bytes from \<open>a\<close> on, in the host's
  byte order.
\<close>

definition read_elem :: "endian \<Rightarrow> byte list \<Rightarrow> int \<Rightarrow> 'a::len word option" where
  "read_elem host m a =
     (let n = LENGTH('a) div 8
      in if 0 \<le> a \<and> nat a + n \<le> length m
         then Some (object_value host (take n (drop (nat a) m)))
         else None)"

definition write_elem ::
  "endian \<Rightarrow> byte list \<Rightarrow> int \<Rightarrow> 'a::len word \<Rightarrow> byte list option"
where
  "write_elem host m a v =
     (let n = LENGTH('a) div 8
      in if 0 \<le> a \<and> nat a + n \<le> length m
         then Some (take (nat a) m @ object_bytes host v @ drop (nat a + n) m)
         else None)"

subsection \<open>isNative\<close>

text \<open>
  \<^verbatim>\<open>bint\<close> is a union of a \<^verbatim>\<open>uint32_t\<close> holding \<^verbatim>\<open>0x01020304\<close> and four chars:
  \<^verbatim>\<open>bint.c\<close> is the object representation of that constant on the host.
\<close>

definition isNative :: "endian \<Rightarrow> buffer_info \<Rightarrow> error + bool" where
  "isNative host input =
     (case format input of
        [] \<Rightarrow> Inl OutOfRange
      | ch # _ \<Rightarrow>
          (let bint_c = object_bytes host (0x01020304 :: 32 word)
           in Inr ((bint_c ! 0 = 1 \<and> ch \<noteq> CHR ''<'') \<or>
                   (bint_c ! 0 \<noteq> 1 \<and> ch \<noteq> CHR ''>''))))"

subsection \<open>makeNative\<close>

text \<open>The overloads for one-byte elements return at once.\<close>

definition makeNative_uint8 :: "endian \<Rightarrow> world \<Rightarrow> error + world" where
  "makeNative_uint8 host w = Inr w"

definition makeNative_int8 :: "endian \<Rightarrow> world \<Rightarrow> error + world" where
  "makeNative_int8 host w = Inr w"

text \<open>
  The loop \<^verbatim>\<open>for (ssize_t i = 0; i < array_info.size; i++)
  array_ptr[i * N] = swap(array_ptr[i * N]);\<close> on a pointer to elements of type
  \<open>'a word\<close>: element \<open>i * N\<close> lies \<open>i * N * sizeof(T)\<close> bytes after \<open>array_ptr\<close>.
\<close>

function swap_loop ::
  "endian \<Rightarrow> ('a::len word \<Rightarrow> 'a word) \<Rightarrow> int \<Rightarrow> int \<Rightarrow> int \<Rightarrow> int \<Rightarrow> byte list
     \<Rightarrow> error + byte list"
where
  "swap_loop host swap array_ptr N sz i m =
     (if i < sz then
        (case read_elem host m (array_ptr + (i * N) * int (LENGTH('a) div 8)) of
           None \<Rightarrow> Inl Undefined
         | Some v \<Rightarrow>
             (case write_elem host m (array_ptr + (i * N) * int (LENGTH('a) div 8)) (swap v) of
                None \<Rightarrow> Inl Undefined
              | Some m' \<Rightarrow> swap_loop host swap array_ptr N sz (i + 1) m'))
      else Inr m)"
  by pat_completeness auto
termination
  by (relation "measure (\<lambda>(host, swap, array_ptr, N, sz, i, m). nat (sz - i))") auto

declare swap_loop.simps [simp del]

text \<open>The conversion of an \<^verbatim>\<open>ssize_t\<close> to the 32-bit \<^verbatim>\<open>int\<close> that \<^verbatim>\<open>N\<close> is.\<close>

definition narrow_int :: "int \<Rightarrow> int" where
  "narrow_int x = sint (word_of_int x :: 32 word)"

text \<open>
  The six overloads for 16-, 32- and 64-bit elements have one body, up to the element
  type and the swap primitive:
  \<^verbatim>\<open>if (isNative(input)) return;
  py::buffer_info array_info = input.request();
  auto array_ptr = (T*)array_info.ptr;
  int N = array_info.shape[0] / array_info.itemsize;
  for ... \<close>
  The division is that of C++, which truncates.
\<close>

definition makeNative_elems ::
  "endian \<Rightarrow> ('a::len word \<Rightarrow> 'a word) \<Rightarrow> world \<Rightarrow> error + world"
where
  "makeNative_elems host swap w =
     (case isNative host (request w) of
        Inl e \<Rightarrow> Inl e
      | Inr True \<Rightarrow> Inr w
      | Inr False \<Rightarrow>
          (let array_info = request w
           in case shape array_info of
                [] \<Rightarrow> Inl Undefined
              | shape0 # _ \<Rightarrow>
                  if itemsize array_info = 0 then Inl Undefined
                  else
                    (let N = narrow_int (shape0 sdiv itemsize array_info)
                     in case swap_loop host swap (ptr array_info) N
                               (size_info array_info) 0 (mem w) of
                          Inl e \<Rightarrow> Inl e
                        | Inr m \<Rightarrow> Inr (w\<lparr>mem := m\<rparr>))))"

definition makeNative_uint16 :: "endian \<Rightarrow> world \<Rightarrow> error + world" where
  "makeNative_uint16 host w = makeNative_elems host swap_uint16 w"

definition makeNative_int16 :: "endian \<Rightarrow> world \<Rightarrow> error + world" where
  "makeNative_int16 host w = makeNative_elems host swap_int16 w"

definition makeNative_uint32 :: "endian \<Rightarrow> world \<Rightarrow> error + world" where
  "makeNative_uint32 host w = makeNative_elems host swap_uint32 w"

definition makeNative_int32 :: "endian \<Rightarrow> world \<Rightarrow> error + world" where
  "makeNative_int32 host w = makeNative_elems host swap_int32 w"

definition makeNative_uint64 :: "endian \<Rightarrow> world \<Rightarrow> error + world" where
  "makeNative_uint64 host w = makeNative_elems host swap_uint64 w"

definition makeNative_int64 :: "endian \<Rightarrow> world \<Rightarrow> error + world" where
  "makeNative_int64 host w = makeNative_elems host swap_int64 w"

text \<open>Two calls in a row on the same array, the second on the state the first leaves.\<close>

definition call_twice :: "(world \<Rightarrow> error + world) \<Rightarrow> world \<Rightarrow> error + world" where
  "call_twice f w = (case f w of Inl e \<Rightarrow> Inl e | Inr w' \<Rightarrow> f w')"

subsection \<open>The traversal of the specification\<close>

text \<open>
  Section 4.3 of the specification, in its words: iterate all elements in index order
  from 0 to element count - 1; for each index, compute the element's address as
  base + index * stride, read the value, apply the primitive and write the result back
  to the same address. The stride is in bytes.
\<close>

function spec_strided_swap ::
  "endian \<Rightarrow> ('a::len word \<Rightarrow> 'a word) \<Rightarrow> int \<Rightarrow> int \<Rightarrow> int \<Rightarrow> int \<Rightarrow> byte list
     \<Rightarrow> error + byte list"
where
  "spec_strided_swap host swap base stride count i m =
     (if i < count then
        (case read_elem host m (base + i * stride) of
           None \<Rightarrow> Inl Undefined
         | Some v \<Rightarrow>
             (case write_elem host m (base + i * stride) (swap v) of
                None \<Rightarrow> Inl Undefined
              | Some m' \<Rightarrow> spec_strided_swap host swap base stride count (i + 1) m'))
      else Inr m)"
  by pat_completeness auto
termination
  by (relation "measure (\<lambda>(host, swap, base, stride, count, i, m). nat (count - i))") auto

declare spec_strided_swap.simps [simp del]

text \<open>
  The data region of a one-dimensional buffer: the addresses of the bytes of its
  elements, element \<open>i\<close> starting \<open>i\<close> strides after \<open>ptr\<close>.
\<close>

definition in_data_region :: "buffer_info \<Rightarrow> int \<Rightarrow> bool" where
  "in_data_region b a =
     (case strides b of
        [] \<Rightarrow> False
      | stride # _ \<Rightarrow>
          (\<exists>i \<in> {0..<size_info b}.
             ptr b + i * stride \<le> a \<and> a < ptr b + i * stride + itemsize b))"

subsection \<open>Example buffers\<close>

text \<open>
  Three \<^verbatim>\<open>uint16\<close> elements tagged little-endian, bytes \<open>01 02 03 04 05 06\<close>,
  filling their memory block.
\<close>

definition three_uint16_little :: world where
  "three_uint16_little =
     \<lparr>request = \<lparr>ptr = 0, itemsize = 2, size_info = 3, format = ''<H'', ndim = 1,
                  shape = [3], strides = [2]\<rparr>,
      mem = [0x01, 0x02, 0x03, 0x04, 0x05, 0x06]\<rparr>"

text \<open>Two \<^verbatim>\<open>uint16\<close> elements tagged big-endian, filling their memory block.\<close>

definition two_uint16_big :: world where
  "two_uint16_big =
     \<lparr>request = \<lparr>ptr = 0, itemsize = 2, size_info = 2, format = ''>H'', ndim = 1,
                  shape = [2], strides = [2]\<rparr>,
      mem = [0x12, 0x34, 0x56, 0x78]\<rparr>"

text \<open>
  Four contiguous \<^verbatim>\<open>uint16\<close> elements tagged big-endian: the first half of an array
  of eight elements (the slice \<^verbatim>\<open>a[:4]\<close>), whose sixteen bytes are the memory block.
\<close>

definition four_of_eight_uint16_big :: world where
  "four_of_eight_uint16_big =
     \<lparr>request = \<lparr>ptr = 0, itemsize = 2, size_info = 4, format = ''>H'', ndim = 1,
                  shape = [4], strides = [2]\<rparr>,
      mem = [1, 2, 3, 4, 5, 6, 7, 8, 9, 10, 11, 12, 13, 14, 15, 16]\<rparr>"

text \<open>The same four elements when they fill their memory block.\<close>

definition four_uint16_big :: world where
  "four_uint16_big = four_of_eight_uint16_big\<lparr>mem := [1, 2, 3, 4, 5, 6, 7, 8]\<rparr>"

subsection \<open>Byte reversal\<close>

text \<open>
  What it means for a function on words of \<open>k\<close> bytes to reverse the bytes, bit by
  bit: bit \<open>r\<close> of byte \<open>q\<close> of the result is bit \<open>r\<close> of byte \<open>k - 1 - q\<close> of
  the argument.
\<close>

definition reverses_bytes :: "nat \<Rightarrow> ('a::len word \<Rightarrow> 'a word) \<Rightarrow> bool" where
  "reverses_bytes k f \<longleftrightarrow>
     (\<forall>x n. bit (f x) n = (n < 8 * k \<and> bit x (8 * (k - 1 - n div 8) + n mod 8)))"

section \<open>Bits of the swapped values\<close>

lemma mask32_8: "(0xFF :: 32 word) = mask 8"
  by (simp add: mask_eq_exp_minus_1)

lemma mask32_16: "(0xFFFF :: 32 word) = mask 16"
  by (simp add: mask_eq_exp_minus_1)

lemma mask32_lo: "(0xFF00FF :: 32 word) = mask 8 OR push_bit 16 (mask 8)"
  by (simp add: mask_eq_exp_minus_1)

lemma mask32_hi: "(0xFF00FF00 :: 32 word) = push_bit 8 (mask 8) OR push_bit 24 (mask 8)"
  by (simp add: mask_eq_exp_minus_1)

lemma mask64_8lo:
  "(0x00FF00FF00FF00FF :: 64 word) =
     mask 8 OR push_bit 16 (mask 8) OR push_bit 32 (mask 8) OR push_bit 48 (mask 8)"
  by (simp add: mask_eq_exp_minus_1)

lemma mask64_8hi:
  "(0xFF00FF00FF00FF00 :: 64 word) =
     push_bit 8 (mask 8) OR push_bit 24 (mask 8) OR push_bit 40 (mask 8) OR push_bit 56 (mask 8)"
  by (simp add: mask_eq_exp_minus_1)

lemma mask64_16lo: "(0x0000FFFF0000FFFF :: 64 word) = mask 16 OR push_bit 32 (mask 16)"
  by (simp add: mask_eq_exp_minus_1)

lemma mask64_16hi:
  "(0xFFFF0000FFFF0000 :: 64 word) = push_bit 16 (mask 16) OR push_bit 48 (mask 16)"
  by (simp add: mask_eq_exp_minus_1)

lemma mask64_32: "(0xFFFFFFFF :: 64 word) = mask 32"
  by (simp add: mask_eq_exp_minus_1)

text \<open>Bit \<open>r\<close> of byte \<open>q\<close> of a swapped value, byte by byte.\<close>

lemma swap_uint16_byte_bit:
  assumes "r < 8" and "q < 2"
  shows "bit (swap_uint16 x) (8 * q + r) = bit x (8 * (1 - q) + r)"
proof -
  from \<open>q < 2\<close> consider "q = 0" | "q = 1"
    by linarith
  then show ?thesis
    using \<open>r < 8\<close> unfolding swap_uint16_def Let_def
    by cases (auto simp add: bit_simps dest: bit_imp_le_length)
qed

lemma swap_int16_byte_bit:
  assumes "r < 8" and "q < 2"
  shows "bit (swap_int16 x) (8 * q + r) = bit x (8 * (1 - q) + r)"
proof -
  from \<open>q < 2\<close> consider "q = 0" | "q = 1"
    by linarith
  then show ?thesis
    using \<open>r < 8\<close> unfolding swap_int16_def Let_def mask32_8
    by cases (auto simp add: bit_simps dest: bit_imp_le_length)
qed

lemma swap_uint32_byte_bit:
  assumes "r < 8" and "q < 4"
  shows "bit (swap_uint32 x) (8 * q + r) = bit x (8 * (3 - q) + r)"
proof -
  from \<open>q < 4\<close> consider "q = 0" | "q = 1" | "q = 2" | "q = 3"
    by linarith
  then show ?thesis
    using \<open>r < 8\<close> unfolding swap_uint32_def Let_def mask32_lo mask32_hi
    by cases (auto simp add: bit_simps dest: bit_imp_le_length)
qed

lemma swap_int32_byte_bit:
  assumes "r < 8" and "q < 4"
  shows "bit (swap_int32 x) (8 * q + r) = bit x (8 * (3 - q) + r)"
proof -
  from \<open>q < 4\<close> consider "q = 0" | "q = 1" | "q = 2" | "q = 3"
    by linarith
  then show ?thesis
    using \<open>r < 8\<close> unfolding swap_int32_def Let_def mask32_lo mask32_hi mask32_16
    by cases (auto simp add: bit_simps dest: bit_imp_le_length)
qed

lemma swap_uint64_byte_bit:
  assumes "r < 8" and "q < 8"
  shows "bit (swap_uint64 x) (8 * q + r) = bit x (8 * (7 - q) + r)"
proof -
  from \<open>q < 8\<close>
  consider "q = 0" | "q = 1" | "q = 2" | "q = 3" | "q = 4" | "q = 5" | "q = 6" | "q = 7"
    by linarith
  then show ?thesis
    using \<open>r < 8\<close>
    unfolding swap_uint64_def Let_def mask64_8lo mask64_8hi mask64_16lo mask64_16hi
    by cases (auto simp add: bit_simps dest: bit_imp_le_length)
qed

lemma swap_int64_byte_bit:
  assumes "r < 8" and "q < 8"
  shows "bit (swap_int64 x) (8 * q + r) = bit x (8 * (7 - q) + r)"
proof -
  from \<open>q < 8\<close>
  consider "q = 0" | "q = 1" | "q = 2" | "q = 3" | "q = 4" | "q = 5" | "q = 6" | "q = 7"
    by linarith
  then show ?thesis
    using \<open>r < 8\<close>
    unfolding swap_int64_def Let_def mask64_8lo mask64_8hi mask64_16lo mask64_16hi mask64_32
    by cases (auto simp add: bit_simps dest: bit_imp_le_length)
qed

text \<open>The same at an arbitrary bit position.\<close>

lemma reverses_bytesI:
  fixes f :: "'a::len word \<Rightarrow> 'a word"
  assumes len: "LENGTH('a) = 8 * k"
    and byte_bit: "\<And>x q r. r < 8 \<Longrightarrow> q < k \<Longrightarrow> bit (f x) (8 * q + r) = bit x (8 * (k - 1 - q) + r)"
  shows "reverses_bytes k f"
  unfolding reverses_bytes_def
proof (intro allI)
  fix x :: "'a word" and n :: nat
  show "bit (f x) n = (n < 8 * k \<and> bit x (8 * (k - 1 - n div 8) + n mod 8))"
  proof (cases "n < 8 * k")
    case True
    then have "n div 8 < k"
      by (simp add: less_mult_imp_div_less mult.commute)
    then have "bit (f x) (8 * (n div 8) + n mod 8) = bit x (8 * (k - 1 - n div 8) + n mod 8)"
      by (intro byte_bit) simp_all
    with True show ?thesis
      by simp
  next
    case False
    with len show ?thesis
      by (auto dest: bit_imp_le_length)
  qed
qed

lemma reverses_swap_uint16: "reverses_bytes 2 swap_uint16"
  by (rule reverses_bytesI) (simp_all add: swap_uint16_byte_bit)

lemma reverses_swap_int16: "reverses_bytes 2 swap_int16"
  by (rule reverses_bytesI) (simp_all add: swap_int16_byte_bit)

lemma reverses_swap_uint32: "reverses_bytes 4 swap_uint32"
  by (rule reverses_bytesI) (simp_all add: swap_uint32_byte_bit)

lemma reverses_swap_int32: "reverses_bytes 4 swap_int32"
  by (rule reverses_bytesI) (simp_all add: swap_int32_byte_bit)

lemma reverses_swap_uint64: "reverses_bytes 8 swap_uint64"
  by (rule reverses_bytesI) (simp_all add: swap_uint64_byte_bit)

lemma reverses_swap_int64: "reverses_bytes 8 swap_int64"
  by (rule reverses_bytesI) (simp_all add: swap_int64_byte_bit)

lemma bit_byte_at: "bit (byte_at q w) r \<longleftrightarrow> r < 8 \<and> bit w (8 * q + r)"
  by (auto simp add: byte_at_def bit_simps ac_simps dest: bit_imp_le_length)

lemma reverses_bytes_byte_at:
  assumes "reverses_bytes k f" and "q < k"
  shows "byte_at q (f x) = byte_at (k - 1 - q) x"
proof (rule bit_word_eqI)
  fix n :: nat
  assume "n < LENGTH(8)"
  then have n: "n < 8"
    by simp
  with \<open>q < k\<close> have "8 * q + n < 8 * k"
    by simp
  with n assms(1) show "bit (byte_at q (f x)) n = bit (byte_at (k - 1 - q) x) n"
    by (simp add: bit_byte_at reverses_bytes_def)
qed

lemma le_bytes_rev:
  assumes "\<And>q. q < k \<Longrightarrow> byte_at q y = byte_at (k - 1 - q) x"
  shows "le_bytes k y = rev (le_bytes k x)"
  by (rule nth_equalityI) (simp_all add: le_bytes_def rev_nth assms)

lemma reverses_bytes_le_bytes:
  assumes "reverses_bytes k f"
  shows "le_bytes k (f x) = rev (le_bytes k x)"
  using assms by (intro le_bytes_rev reverses_bytes_byte_at)

lemma reverses_bytes_object_bytes:
  fixes f :: "'a::len word \<Rightarrow> 'a word"
  assumes "reverses_bytes (LENGTH('a) div 8) f"
  shows "object_bytes host (f x) = rev (object_bytes host x)"
  using assms by (cases host) (simp_all add: object_bytes_def reverses_bytes_le_bytes)

lemma reverses_bytes_index:
  fixes n :: nat
  assumes "n < 8 * k"
  shows "8 * (k - 1 - n div 8) + n mod 8 < 8 * k"
    and "(8 * (k - 1 - n div 8) + n mod 8) div 8 = k - 1 - n div 8"
    and "(8 * (k - 1 - n div 8) + n mod 8) mod 8 = n mod 8"
    and "8 * (k - 1 - (k - 1 - n div 8)) + n mod 8 = n"
proof -
  from assms have "n div 8 < k"
    by (simp add: less_mult_imp_div_less mult.commute)
  then show "8 * (k - 1 - n div 8) + n mod 8 < 8 * k"
    and "8 * (k - 1 - (k - 1 - n div 8)) + n mod 8 = n"
    by auto
  show "(8 * (k - 1 - n div 8) + n mod 8) div 8 = k - 1 - n div 8"
    and "(8 * (k - 1 - n div 8) + n mod 8) mod 8 = n mod 8"
    by simp_all
qed

lemma reverses_bytes_involution:
  fixes f :: "'a::len word \<Rightarrow> 'a word"
  assumes "reverses_bytes k f" and "LENGTH('a) = 8 * k"
  shows "f (f x) = x"
proof (rule bit_word_eqI)
  fix n :: nat
  assume "n < LENGTH('a)"
  with assms(2) have "n < 8 * k"
    by simp
  with assms(1) reverses_bytes_index [of n k] show "bit (f (f x)) n = bit x n"
    by (simp add: reverses_bytes_def)
qed

lemma reverses_bytes_unique:
  assumes "reverses_bytes k f" and "reverses_bytes k g"
  shows "f x = g x"
  using assms by (intro bit_word_eqI) (simp add: reverses_bytes_def)

text \<open>The bytes of a value determine it: \<open>of_le_bytes\<close> and \<open>le_bytes\<close> are inverse.\<close>

lemma of_le_bytes_Nil: "of_le_bytes [] = 0"
  by (simp add: of_le_bytes_def)

lemma of_le_bytes_Cons: "of_le_bytes (b # bs) = ucast b OR push_bit 8 (of_le_bytes bs)"
  by (simp add: of_le_bytes_def)

lemma bit_of_le_bytes:
  "bit (of_le_bytes bs :: 'a::len word) n \<longleftrightarrow>
     n < 8 * length bs \<and> n < LENGTH('a) \<and> bit (bs ! (n div 8)) (n mod 8)"
proof (induction bs arbitrary: n)
  case Nil
  show ?case
    by (simp add: of_le_bytes_Nil)
next
  case (Cons b bs)
  show ?case
  proof (cases "n < 8")
    case True
    then show ?thesis
      by (auto simp add: of_le_bytes_Cons bit_simps)
  next
    case False
    then have "n div 8 = Suc ((n - 8) div 8)" and "n mod 8 = (n - 8) mod 8"
      by (simp_all add: le_div_geq le_mod_geq)
    with False show ?thesis
      by (auto simp add: of_le_bytes_Cons bit_simps Cons.IH dest: bit_imp_le_length)
  qed
qed

lemma byte_at_of_le_bytes:
  assumes "q < length bs" and "8 * length bs \<le> LENGTH('a::len)"
  shows "byte_at q (of_le_bytes bs :: 'a word) = bs ! q"
proof (rule bit_word_eqI)
  fix n :: nat
  assume "n < LENGTH(8)"
  with assms show "bit (byte_at q (of_le_bytes bs :: 'a word)) n = bit (bs ! q) n"
    by (simp add: bit_byte_at bit_of_le_bytes)
qed

lemma le_bytes_of_le_bytes:
  assumes "8 * length bs \<le> LENGTH('a::len)"
  shows "le_bytes (length bs) (of_le_bytes bs :: 'a word) = bs"
  using assms by (intro nth_equalityI) (simp_all add: le_bytes_def byte_at_of_le_bytes)

lemma of_le_bytes_le_bytes:
  fixes w :: "'a::len word"
  assumes "LENGTH('a) = 8 * k"
  shows "of_le_bytes (le_bytes k w) = w"
proof (rule bit_word_eqI)
  fix n :: nat
  assume "n < LENGTH('a)"
  with assms have "n div 8 < k"
    by (simp add: less_mult_imp_div_less mult.commute)
  with assms \<open>n < LENGTH('a)\<close> show "bit (of_le_bytes (le_bytes k w) :: 'a word) n = bit w n"
    by (simp add: bit_of_le_bytes le_bytes_def bit_byte_at)
qed

lemma reverses_bytes_of_le_bytes:
  fixes f :: "'a::len word \<Rightarrow> 'a word"
  assumes "reverses_bytes k f" and "LENGTH('a) = 8 * k" and "length bs = k"
  shows "f (of_le_bytes bs) = of_le_bytes (rev bs)"
proof -
  have "f (of_le_bytes bs) = of_le_bytes (le_bytes k (f (of_le_bytes bs)))"
    using assms(2) by (simp add: of_le_bytes_le_bytes)
  also have "le_bytes k (f (of_le_bytes bs)) = rev (le_bytes k (of_le_bytes bs :: 'a word))"
    using assms(1) by (rule reverses_bytes_le_bytes)
  also have "le_bytes k (of_le_bytes bs :: 'a word) = bs"
    using assms(2,3) le_bytes_of_le_bytes [of bs, where ?'a = 'a] by simp
  finally show ?thesis .
qed

lemma object_value_object_bytes:
  fixes w :: "'a::len word"
  assumes "8 dvd LENGTH('a)"
  shows "object_value host (object_bytes host w) = w"
  using assms
  by (cases host) (auto simp add: object_value_def object_bytes_def of_le_bytes_le_bytes)

section \<open>The swap primitives\<close>

text \<open>
  Claim C2. For each width 16, 32 and 64 and both signednesses, the swap primitive
  reverses the bytes of its argument: if the bytes of the value are \<open>[b0, ..., bk]\<close>,
  the bytes of the result are \<open>[bk, ..., b0]\<close>. This holds for the bytes listed from
  the least significant one, for the object representation on either host, and for the
  value built from given bytes.
\<close>

theorem swap_reverses_bytes:
  "le_bytes 2 (swap_uint16 a) = rev (le_bytes 2 a) \<and>
   le_bytes 2 (swap_int16 b) = rev (le_bytes 2 b) \<and>
   le_bytes 4 (swap_uint32 c) = rev (le_bytes 4 c) \<and>
   le_bytes 4 (swap_int32 d) = rev (le_bytes 4 d) \<and>
   le_bytes 8 (swap_uint64 e) = rev (le_bytes 8 e) \<and>
   le_bytes 8 (swap_int64 f) = rev (le_bytes 8 f) \<and>
   object_bytes host (swap_uint16 a) = rev (object_bytes host a) \<and>
   object_bytes host (swap_int16 b) = rev (object_bytes host b) \<and>
   object_bytes host (swap_uint32 c) = rev (object_bytes host c) \<and>
   object_bytes host (swap_int32 d) = rev (object_bytes host d) \<and>
   object_bytes host (swap_uint64 e) = rev (object_bytes host e) \<and>
   object_bytes host (swap_int64 f) = rev (object_bytes host f) \<and>
   swap_uint16 (of_le_bytes [p0, p1]) = of_le_bytes [p1, p0] \<and>
   swap_int16 (of_le_bytes [p0, p1]) = of_le_bytes [p1, p0] \<and>
   swap_uint32 (of_le_bytes [q0, q1, q2, q3]) = of_le_bytes [q3, q2, q1, q0] \<and>
   swap_int32 (of_le_bytes [q0, q1, q2, q3]) = of_le_bytes [q3, q2, q1, q0] \<and>
   swap_uint64 (of_le_bytes [r0, r1, r2, r3, r4, r5, r6, r7]) =
     of_le_bytes [r7, r6, r5, r4, r3, r2, r1, r0] \<and>
   swap_int64 (of_le_bytes [r0, r1, r2, r3, r4, r5, r6, r7]) =
     of_le_bytes [r7, r6, r5, r4, r3, r2, r1, r0]"
  by (simp add: reverses_bytes_le_bytes reverses_bytes_object_bytes
      reverses_bytes_of_le_bytes [OF reverses_swap_uint16]
      reverses_bytes_of_le_bytes [OF reverses_swap_int16]
      reverses_bytes_of_le_bytes [OF reverses_swap_uint32]
      reverses_bytes_of_le_bytes [OF reverses_swap_int32]
      reverses_bytes_of_le_bytes [OF reverses_swap_uint64]
      reverses_bytes_of_le_bytes [OF reverses_swap_int64]
      reverses_swap_uint16 reverses_swap_int16 reverses_swap_uint32 reverses_swap_int32
      reverses_swap_uint64 reverses_swap_int64)

text \<open>
  Claim C3. Each swap primitive is an involution: swapping twice gives the value back,
  for every value of the width (zero, minus one, the minimum and the maximum included).
\<close>

theorem swap_involution:
  "swap_uint16 (swap_uint16 a) = a \<and>
   swap_int16 (swap_int16 b) = b \<and>
   swap_uint32 (swap_uint32 c) = c \<and>
   swap_int32 (swap_int32 d) = d \<and>
   swap_uint64 (swap_uint64 e) = e \<and>
   swap_int64 (swap_int64 f) = f"
  by (simp add: reverses_bytes_involution [OF reverses_swap_uint16]
      reverses_bytes_involution [OF reverses_swap_int16]
      reverses_bytes_involution [OF reverses_swap_uint32]
      reverses_bytes_involution [OF reverses_swap_int32]
      reverses_bytes_involution [OF reverses_swap_uint64]
      reverses_bytes_involution [OF reverses_swap_int64])

text \<open>
  Claim C4. For each width, the signed swap routine returns the bit pattern that the
  unsigned routine of that width returns on the same bit pattern, for every input
  (negative values and the signed minimum included). Both routines act on the word that
  is the two's-complement bit pattern, so the claim is the equality of the two words.
\<close>

theorem signed_swap_eq_unsigned:
  "swap_int16 a = swap_uint16 a \<and>
   swap_int32 c = swap_uint32 c \<and>
   swap_int64 e = swap_uint64 e"
  by (simp add: reverses_bytes_unique [OF reverses_swap_int16 reverses_swap_uint16]
      reverses_bytes_unique [OF reverses_swap_int32 reverses_swap_uint32]
      reverses_bytes_unique [OF reverses_swap_int64 reverses_swap_uint64])

section \<open>Detection of the native order\<close>

lemma bint_c_0:
  "object_bytes LittleEndian (0x01020304 :: 32 word) ! 0 = 4"
  "object_bytes BigEndian (0x01020304 :: 32 word) ! 0 = 1"
  by (simp_all add: object_bytes_def le_bytes_def byte_at_def upt_rec)

text \<open>
  Claim C5. For a buffer whose format begins with \<open><\<close> (little), isNative returns true
  exactly when the host is little-endian; for one whose format begins with \<open>>\<close> (big),
  exactly when the host is big-endian. The host's order is read off the first byte of
  the object representation of \<open>0x01020304\<close>.
\<close>

theorem isNative_decision_table:
  "isNative host (b\<lparr>format := CHR ''<'' # fmt\<rparr>) = Inr (host = LittleEndian) \<and>
   isNative host (b\<lparr>format := CHR ''>'' # fmt\<rparr>) = Inr (host = BigEndian)"
  by (cases host) (simp_all add: isNative_def bint_c_0)

section \<open>The normalizer\<close>

text \<open>An element written is the element read back at that address.\<close>

lemma length_object_bytes: "length (object_bytes host (w :: 'a::len word)) = LENGTH('a) div 8"
  by (cases host) (simp_all add: object_bytes_def le_bytes_def)

lemma read_elem_write_elem:
  fixes v :: "'a::len word"
  assumes "write_elem host m a v = Some m'" and "8 dvd LENGTH('a)"
  shows "read_elem host m' a = Some v" and "length m' = length m"
  using assms
  by (auto simp add: write_elem_def read_elem_def Let_def length_object_bytes
      object_value_object_bytes split: if_splits)

text \<open>One turn of each loop, and its exit.\<close>

lemma swap_loop_step:
  fixes swap :: "'a::len word \<Rightarrow> 'a word"
  assumes "i < sz"
  shows "swap_loop host swap array_ptr N sz i m =
     (case read_elem host m (array_ptr + (i * N) * int (LENGTH('a) div 8)) of
        None \<Rightarrow> Inl Undefined
      | Some v \<Rightarrow>
          (case write_elem host m (array_ptr + (i * N) * int (LENGTH('a) div 8)) (swap v) of
             None \<Rightarrow> Inl Undefined
           | Some m' \<Rightarrow> swap_loop host swap array_ptr N sz (i + 1) m'))"
  using assms by (subst swap_loop.simps) simp

lemma swap_loop_done:
  assumes "\<not> i < sz"
  shows "swap_loop host swap array_ptr N sz i m = Inr m"
  using assms by (subst swap_loop.simps) simp

lemma spec_strided_swap_step:
  assumes "i < count"
  shows "spec_strided_swap host swap base stride count i m =
     (case read_elem host m (base + i * stride) of
        None \<Rightarrow> Inl Undefined
      | Some v \<Rightarrow>
          (case write_elem host m (base + i * stride) (swap v) of
             None \<Rightarrow> Inl Undefined
           | Some m' \<Rightarrow> spec_strided_swap host swap base stride count (i + 1) m'))"
  using assms by (subst spec_strided_swap.simps) simp

lemma spec_strided_swap_done:
  assumes "\<not> i < count"
  shows "spec_strided_swap host swap base stride count i m = Inr m"
  using assms by (subst spec_strided_swap.simps) simp

lemma makeNative_elems_native:
  assumes "isNative host (request w) = Inr True"
  shows "makeNative_elems host swap w = Inr w"
  using assms by (simp add: makeNative_elems_def)

lemma makeNative_elems_request:
  assumes "makeNative_elems host swap w = Inr w'"
  shows "request w' = request w"
  using assms
  by (auto simp add: makeNative_elems_def Let_def
      split: sum.splits bool.splits list.splits if_splits)

text \<open>
  The loop of the code is the traversal of the specification with the byte stride
  \<open>N * sizeof(T)\<close>, where \<open>N\<close> comes from \<^verbatim>\<open>shape[0] / itemsize\<close> and not from the
  buffer's stride.
\<close>

lemma swap_loop_strided:
  fixes swap :: "'a::len word \<Rightarrow> 'a word"
  shows "swap_loop host swap array_ptr N sz i m =
         spec_strided_swap host swap array_ptr (N * int (LENGTH('a) div 8)) sz i m"
proof (induction host swap array_ptr N sz i m rule: swap_loop.induct)
  case (1 host swap array_ptr N sz i m)
  show ?case
  proof (cases "i < sz")
    case True
    with "1.IH" show ?thesis
      by (subst swap_loop.simps, subst spec_strided_swap.simps)
        (simp add: mult.assoc split: option.splits)
  next
    case False
    then show ?thesis
      by (simp add: swap_loop.simps spec_strided_swap.simps)
  qed
qed

text \<open>The equations that evaluate a call on a given buffer.\<close>

lemmas eval_simps = makeNative_elems_def isNative_def bint_c_0 narrow_int_def
  signed_divide_int_def swap_loop_step swap_loop_done spec_strided_swap_step
  spec_strided_swap_done read_elem_def write_elem_def object_value_def object_bytes_def
  le_bytes_def byte_at_def of_le_bytes_def upt_rec swap_uint16_def

text \<open>
  Claim C6. When isNative reports the buffer native, makeNative returns the state as
  it was, memory and descriptor alike, and so does a second call.
\<close>

theorem makeNative_native_noop:
  assumes "isNative host (request w) = Inr True"
  shows "makeNative_uint16 host w = Inr w \<and> makeNative_int16 host w = Inr w \<and>
         makeNative_uint32 host w = Inr w \<and> makeNative_int32 host w = Inr w \<and>
         makeNative_uint64 host w = Inr w \<and> makeNative_int64 host w = Inr w \<and>
         call_twice (makeNative_uint16 host) w = Inr w \<and>
         call_twice (makeNative_int16 host) w = Inr w \<and>
         call_twice (makeNative_uint32 host) w = Inr w \<and>
         call_twice (makeNative_int32 host) w = Inr w \<and>
         call_twice (makeNative_uint64 host) w = Inr w \<and>
         call_twice (makeNative_int64 host) w = Inr w"
  using assms
  by (simp add: call_twice_def makeNative_uint16_def makeNative_int16_def
      makeNative_uint32_def makeNative_int32_def makeNative_uint64_def makeNative_int64_def
      makeNative_elems_native)

theorem makeNative_native_noop_witness:
  "isNative BigEndian (request two_uint16_big) = Inr True \<and>
   makeNative_uint16 BigEndian two_uint16_big = Inr two_uint16_big \<and>
   call_twice (makeNative_uint16 BigEndian) two_uint16_big = Inr two_uint16_big"
proof -
  have native: "isNative BigEndian (request two_uint16_big) = Inr True"
    by (simp add: isNative_def two_uint16_big_def bint_c_0)
  from makeNative_native_noop [OF native] native show ?thesis
    by simp
qed

text \<open>
  Claim C7. The overloads for one-byte elements, unsigned and signed, return the state
  unchanged whatever the host and the declared byte order.
\<close>

theorem makeNative_8bit_identity:
  "makeNative_uint8 host w = Inr w \<and> makeNative_int8 host w = Inr w"
  by (simp add: makeNative_uint8_def makeNative_int8_def)

text \<open>
  Claim C8. On a big-endian host, makeNative on three contiguous uint16 elements tagged
  little with bytes \<open>01 02 03 04 05 06\<close> leaves the bytes \<open>02 01 04 03 06 05\<close>, which
  the host reads as \<open>0x0201\<close>, \<open>0x0403\<close> and \<open>0x0605\<close>.
\<close>

theorem three_uint16_on_big_endian_host:
  "makeNative_uint16 BigEndian three_uint16_little =
     Inr (three_uint16_little\<lparr>mem := [0x02, 0x01, 0x04, 0x03, 0x06, 0x05]\<rparr>) \<and>
   read_elem BigEndian [0x02, 0x01, 0x04, 0x03, 0x06, 0x05] 0 = Some (0x0201 :: uint16_t) \<and>
   read_elem BigEndian [0x02, 0x01, 0x04, 0x03, 0x06, 0x05] 2 = Some (0x0403 :: uint16_t) \<and>
   read_elem BigEndian [0x02, 0x01, 0x04, 0x03, 0x06, 0x05] 4 = Some (0x0605 :: uint16_t)"
  by (simp add: makeNative_uint16_def three_uint16_little_def eval_simps)

text \<open>
  Claim C9. A second call on a buffer that a first call has normalized, its tag left
  as it was, can change the bytes again: on a little-endian host the two elements tagged
  big are swapped by the first call, the descriptor stays, and the second call swaps
  them back.
\<close>

theorem makeNative_twice_swaps_back:
  "makeNative_uint16 LittleEndian two_uint16_big =
     Inr (two_uint16_big\<lparr>mem := [0x34, 0x12, 0x78, 0x56]\<rparr>) \<and>
   request (two_uint16_big\<lparr>mem := [0x34, 0x12, 0x78, 0x56]\<rparr>) = request two_uint16_big \<and>
   makeNative_uint16 LittleEndian (two_uint16_big\<lparr>mem := [0x34, 0x12, 0x78, 0x56]\<rparr>) =
     Inr two_uint16_big \<and>
   mem two_uint16_big \<noteq> [0x34, 0x12, 0x78, 0x56]"
  by (simp add: makeNative_uint16_def two_uint16_big_def eval_simps)

text \<open>
  Claim C1, which the code does not meet. The code steps through the elements with
  \<open>N = shape[0] / itemsize\<close> in place of the stride. On four contiguous uint16
  elements tagged big, on a little-endian host, \<open>N\<close> is 2: the code swaps the elements
  at byte offsets 0, 4, 8 and 12, so the second and fourth element are skipped and two
  elements beyond the buffer are swapped, where the traversal of the specification
  swaps the four elements at offsets 0, 2, 4 and 6. When the four elements fill their
  memory block, the third access is out of bounds.
\<close>

theorem makeNative_uint16_four_elements:
  "makeNative_uint16 LittleEndian four_of_eight_uint16_big =
     Inr (four_of_eight_uint16_big
           \<lparr>mem := [2, 1, 3, 4, 6, 5, 7, 8, 10, 9, 11, 12, 14, 13, 15, 16]\<rparr>) \<and>
   spec_strided_swap LittleEndian swap_uint16 0 2 4 0 (mem four_of_eight_uint16_big) =
     Inr [2, 1, 4, 3, 6, 5, 8, 7, 9, 10, 11, 12, 13, 14, 15, 16] \<and>
   makeNative_uint16 LittleEndian four_uint16_big = Inl Undefined"
  by (simp add: makeNative_uint16_def four_uint16_big_def four_of_eight_uint16_big_def
      eval_simps)

text \<open>
  Claim C10, which the code does not meet either, by the same defect. The descriptor
  is never changed (lemma \<open>makeNative_elems_request\<close>), but the bytes written need
  not belong to the buffer: for the four elements above, byte 8 lies outside the data
  region and is changed.
\<close>

theorem makeNative_uint16_writes_outside:
  "\<exists>w'. makeNative_uint16 LittleEndian four_of_eight_uint16_big = Inr w' \<and>
      request w' = request four_of_eight_uint16_big \<and>
      \<not> in_data_region (request four_of_eight_uint16_big) 8 \<and>
      mem w' ! 8 \<noteq> mem four_of_eight_uint16_big ! 8"
  by (auto simp add: makeNative_uint16_def four_of_eight_uint16_big_def in_data_region_def
      eval_simps)

end
